theory Spec2Isabelle
  imports Complex_Main "HOL-Library.Sublist"
begin

section \<open>The gesture decoder of src/lib/gesture.ts\<close>

text \<open>
  The class \<open>GestureDecoder\<close> keeps a cache of the pointer events of the active contacts,
  the drag anchor \<open>this.x\<close>, \<open>this.y\<close>, the zoom anchor \<open>this.delta\<close> and six optional
  handlers. The three private methods \<open>handlePointerDown\<close>, \<open>handlePointerMove\<close> and
  \<open>handlePointerUp\<close> are what the element's listeners call.

  Conventions of the embedding.
  \<^item> A pointer event is reduced to the three attributes the class reads. \<open>pointerId\<close> is
    an integer; \<open>clientX\<close> and \<open>clientY\<close> are finite (the DOM type is a restricted
    double) and arithmetic on positions is exact real arithmetic: rounding and overflow
    of doubles are not modelled.
  \<^item> The one operation whose operand can leave the finite numbers is the division
    \<open>delta / this.delta\<close>; its result is a \<open>number\<close> with the IEEE special values.
  \<^item> A handler is an opaque callback, named by a natural number. Calling it is recorded
    as a \<open>call\<close> in the output of the operation; a handler is taken to return normally
    and not to touch the decoder.
  \<^item> Reading a property of \<open>this.cache[i]\<close> with \<open>i\<close> out of range is a
    \<open>TypeError\<close> (the element is \<open>undefined\<close>); it ends the operation.
\<close>

subsection \<open>Data\<close>

record PointerEvent =
  pointerId :: int
  clientX :: real
  clientY :: real

datatype number = Finite real | PosInfinity | NegInfinity | NaN

datatype DragEvent = DragEvent (drag_x: real) (drag_y: real)

datatype ZoomEvent = ZoomEvent (zoom_x: real) (zoom_y: real) (scale: number)

datatype kind = dragstart | dragupdate | dragstop | zoomstart | zoomupdate | zoomstop

type_synonym handler = nat

datatype call = CallDrag kind handler DragEvent | CallZoom kind handler ZoomEvent

datatype error = TypeError

text \<open>The fields \<open>x\<close>, \<open>y\<close> and \<open>delta\<close> of the class are \<open>this_x\<close>, \<open>this_y\<close> and
  \<open>this_delta\<close>.\<close>

record decoder =
  cache :: "PointerEvent list"
  this_x :: real
  this_y :: real
  this_delta :: real
  dragStartHandler :: "handler option"
  dragUpdateHandler :: "handler option"
  dragStopHandler :: "handler option"
  zoomStartHandler :: "handler option"
  zoomUpdateHandler :: "handler option"
  zoomStopHandler :: "handler option"

type_synonym outcome = "error + (decoder \<times> call list)"

text \<open>The field initialisers of the class.\<close>

definition new_decoder :: decoder where
  "new_decoder = \<lparr> cache = [], this_x = 0, this_y = 0, this_delta = 0,
     dragStartHandler = None, dragUpdateHandler = None, dragStopHandler = None,
     zoomStartHandler = None, zoomUpdateHandler = None, zoomStopHandler = None \<rparr>"

subsection \<open>Primitive steps\<close>

text \<open>\<open>this.cache[i]\<close> followed by a property read.\<close>

definition cache_at :: "decoder \<Rightarrow> nat \<Rightarrow> error + PointerEvent" where
  "cache_at s i = (if i < length (cache s) then Inr (cache s ! i) else Inl TypeError)"

text \<open>The operator \<open>/\<close> on two finite numbers, the divisor not a negative zero. The
  divisor here is always \<open>this.delta\<close>, which is the field's initial \<open>0\<close> or a result of
  \<open>Math.sqrt\<close> on a sum of squares, so a zero divisor is the positive zero.\<close>

definition js_div :: "real \<Rightarrow> real \<Rightarrow> number" where
  "js_div a b =
     (if b \<noteq> 0 then Finite (a / b)
      else if 0 < a then PosInfinity
      else if a < 0 then NegInfinity
      else NaN)"

text \<open>Sequencing of two operations: an error ends the sequence, the calls accumulate.\<close>

definition and_then :: "outcome \<Rightarrow> (decoder \<Rightarrow> outcome) \<Rightarrow> outcome" where
  "and_then r f =
     (case r of
        Inl e \<Rightarrow> Inl e
      | Inr (s1, out1) \<Rightarrow>
          (case f s1 of
             Inl e \<Rightarrow> Inl e
           | Inr (s2, out2) \<Rightarrow> Inr (s2, out1 @ out2)))"

subsection \<open>Registration\<close>

fun on :: "kind \<Rightarrow> handler \<Rightarrow> decoder \<Rightarrow> decoder" where
  "on dragstart h s = s\<lparr>dragStartHandler := Some h\<rparr>"
| "on dragupdate h s = s\<lparr>dragUpdateHandler := Some h\<rparr>"
| "on dragstop h s = s\<lparr>dragStopHandler := Some h\<rparr>"
| "on zoomstart h s = s\<lparr>zoomStartHandler := Some h\<rparr>"
| "on zoomupdate h s = s\<lparr>zoomUpdateHandler := Some h\<rparr>"
| "on zoomstop h s = s\<lparr>zoomStopHandler := Some h\<rparr>"

subsection \<open>The drag gesture\<close>

text \<open>The payload \<open>{x: this.cache[0].clientX - this.x, y: this.cache[0].clientY - this.y}\<close>
  that the three drag operations build inside their \<open>if\<close>.\<close>

definition drag_payload :: "decoder \<Rightarrow> error + DragEvent" where
  "drag_payload s =
     (case cache_at s 0 of
        Inl e \<Rightarrow> Inl e
      | Inr c \<Rightarrow> Inr (DragEvent (clientX c - this_x s) (clientY c - this_y s)))"

definition startDrag :: "decoder \<Rightarrow> outcome" where
  "startDrag s =
     (case cache_at s 0 of
        Inl e \<Rightarrow> Inl e
      | Inr c \<Rightarrow>
          (let s1 = s\<lparr>this_x := clientX c, this_y := clientY c\<rparr> in
           case dragStartHandler s1 of
             None \<Rightarrow> Inr (s1, [])
           | Some h \<Rightarrow>
               (case drag_payload s1 of
                  Inl e \<Rightarrow> Inl e
                | Inr ev \<Rightarrow> Inr (s1, [CallDrag dragstart h ev]))))"

definition updateDrag :: "decoder \<Rightarrow> outcome" where
  "updateDrag s =
     (case dragUpdateHandler s of
        None \<Rightarrow> Inr (s, [])
      | Some h \<Rightarrow>
          (case drag_payload s of
             Inl e \<Rightarrow> Inl e
           | Inr ev \<Rightarrow> Inr (s, [CallDrag dragupdate h ev])))"

definition stopDrag :: "decoder \<Rightarrow> outcome" where
  "stopDrag s =
     (case dragStopHandler s of
        None \<Rightarrow> Inr (s, [])
      | Some h \<Rightarrow>
          (case drag_payload s of
             Inl e \<Rightarrow> Inl e
           | Inr ev \<Rightarrow> Inr (s, [CallDrag dragstop h ev])))"

subsection \<open>The zoom gesture\<close>

text \<open>\<open>Math.sqrt(deltaX*deltaX + deltaY*deltaY)\<close> and the two midpoint coordinates of a
  pair of cached events.\<close>

definition distance :: "PointerEvent \<Rightarrow> PointerEvent \<Rightarrow> real" where
  "distance c0 c1 =
     (let deltaX = clientX c0 - clientX c1;
          deltaY = clientY c0 - clientY c1
      in sqrt (deltaX * deltaX + deltaY * deltaY))"

definition mid_x :: "PointerEvent \<Rightarrow> PointerEvent \<Rightarrow> real" where
  "mid_x c0 c1 = (clientX c0 + clientX c1) / 2"

definition mid_y :: "PointerEvent \<Rightarrow> PointerEvent \<Rightarrow> real" where
  "mid_y c0 c1 = (clientY c0 + clientY c1) / 2"

text \<open>Reading \<open>this.cache[0]\<close> and \<open>this.cache[1]\<close>; the source reads index 0 first.\<close>

definition cache_pair :: "decoder \<Rightarrow> error + (PointerEvent \<times> PointerEvent)" where
  "cache_pair s =
     (case cache_at s 0 of
        Inl e \<Rightarrow> Inl e
      | Inr c0 \<Rightarrow>
          (case cache_at s 1 of
             Inl e \<Rightarrow> Inl e
           | Inr c1 \<Rightarrow> Inr (c0, c1)))"

definition startZoom :: "decoder \<Rightarrow> outcome" where
  "startZoom s =
     (case cache_pair s of
        Inl e \<Rightarrow> Inl e
      | Inr (c0, c1) \<Rightarrow>
          (let s1 = s\<lparr>this_delta := distance c0 c1\<rparr> in
           case zoomStartHandler s1 of
             None \<Rightarrow> Inr (s1, [])
           | Some h \<Rightarrow>
               (case cache_pair s1 of
                  Inl e \<Rightarrow> Inl e
                | Inr (d0, d1) \<Rightarrow>
                    Inr (s1, [CallZoom zoomstart h
                                (ZoomEvent (mid_x d0 d1) (mid_y d0 d1) (Finite 1))]))))"

text \<open>The payload \<open>{x, y, scale: delta / this.delta}\<close> of update and stop.\<close>

definition zoom_payload :: "decoder \<Rightarrow> error + ZoomEvent" where
  "zoom_payload s =
     (case cache_pair s of
        Inl e \<Rightarrow> Inl e
      | Inr (c0, c1) \<Rightarrow>
          Inr (ZoomEvent (mid_x c0 c1) (mid_y c0 c1)
                 (js_div (distance c0 c1) (this_delta s))))"

definition updateZoom :: "decoder \<Rightarrow> outcome" where
  "updateZoom s =
     (case zoomUpdateHandler s of
        None \<Rightarrow> Inr (s, [])
      | Some h \<Rightarrow>
          (case zoom_payload s of
             Inl e \<Rightarrow> Inl e
           | Inr ev \<Rightarrow> Inr (s, [CallZoom zoomupdate h ev])))"

definition stopZoom :: "decoder \<Rightarrow> outcome" where
  "stopZoom s =
     (case zoomStopHandler s of
        None \<Rightarrow> Inr (s, [])
      | Some h \<Rightarrow>
          (case zoom_payload s of
             Inl e \<Rightarrow> Inl e
           | Inr ev \<Rightarrow> Inr (s, [CallZoom zoomstop h ev])))"

subsection \<open>The three notifications\<close>

text \<open>The loop of \<open>handlePointerMove\<close>: the first cached event with the identity of the
  new one is replaced by it, then the loop breaks.\<close>

fun replace_first :: "PointerEvent \<Rightarrow> PointerEvent list \<Rightarrow> PointerEvent list" where
  "replace_first event [] = []"
| "replace_first event (c # cs) =
     (if pointerId c = pointerId event then event # cs else c # replace_first event cs)"

text \<open>The loop of \<open>handlePointerUp\<close>: \<open>splice(i, 1)\<close> at the first cached event with
  the identity of the new one, then the loop breaks.\<close>

fun splice_first :: "PointerEvent \<Rightarrow> PointerEvent list \<Rightarrow> PointerEvent list" where
  "splice_first event [] = []"
| "splice_first event (c # cs) =
     (if pointerId c = pointerId event then cs else c # splice_first event cs)"

definition handlePointerDown :: "PointerEvent \<Rightarrow> decoder \<Rightarrow> outcome" where
  "handlePointerDown event s =
     (let s1 = s\<lparr>cache := cache s @ [event]\<rparr> in
      if length (cache s1) = 1 then startDrag s1
      else if length (cache s1) = 2 then and_then (stopDrag s1) startZoom
      else if length (cache s1) = 3 then stopZoom s1
      else Inr (s1, []))"

definition handlePointerMove :: "PointerEvent \<Rightarrow> decoder \<Rightarrow> outcome" where
  "handlePointerMove event s =
     (let s1 = s\<lparr>cache := replace_first event (cache s)\<rparr> in
      if length (cache s1) = 1 then updateDrag s1
      else if length (cache s1) = 2 then updateZoom s1
      else Inr (s1, []))"

definition handlePointerUp :: "PointerEvent \<Rightarrow> decoder \<Rightarrow> outcome" where
  "handlePointerUp event s =
     (let deferStartDrag = (length (cache s) = 2) in
      and_then
        (if length (cache s) = 1 then stopDrag s
         else if length (cache s) = 2 then stopZoom s
         else if length (cache s) = 3 then startZoom s
         else Inr (s, []))
        (\<lambda>s1.
           let s2 = s1\<lparr>cache := splice_first event (cache s1)\<rparr> in
           if deferStartDrag then startDrag s2 else Inr (s2, [])))"

subsection \<open>Sequences of notifications\<close>

text \<open>The listeners registered by the constructor: \<open>pointerdown\<close> goes to
  \<open>handlePointerDown\<close>, \<open>pointermove\<close> to \<open>handlePointerMove\<close>, and \<open>pointerup\<close>,
  \<open>pointercancel\<close>, \<open>pointerout\<close> and \<open>pointerleave\<close> to \<open>handlePointerUp\<close>.\<close>

datatype notification = Added PointerEvent | Updated PointerEvent | Removed PointerEvent

fun notify :: "notification \<Rightarrow> decoder \<Rightarrow> outcome" where
  "notify (Added event) s = handlePointerDown event s"
| "notify (Updated event) s = handlePointerMove event s"
| "notify (Removed event) s = handlePointerUp event s"

fun run :: "notification list \<Rightarrow> decoder \<Rightarrow> outcome" where
  "run [] s = Inr (s, [])"
| "run (n # ns) s = and_then (notify n s) (run ns)"

subsection \<open>Notions used in the statements\<close>

text \<open>What a handler slot receives when an event is fired: nothing when no handler is
  registered, one call otherwise.\<close>

definition delivered :: "handler option \<Rightarrow> (handler \<Rightarrow> call) \<Rightarrow> call list" where
  "delivered slot mk = (case slot of None \<Rightarrow> [] | Some h \<Rightarrow> [mk h])"

text \<open>No handler is registered.\<close>

definition no_handlers :: "decoder \<Rightarrow> bool" where
  "no_handlers s \<longleftrightarrow>
     dragStartHandler s = None \<and> dragUpdateHandler s = None \<and> dragStopHandler s = None \<and>
     zoomStartHandler s = None \<and> zoomUpdateHandler s = None \<and> zoomStopHandler s = None"

text \<open>Concrete inputs: a pointer event, a decoder with a handler in every slot, and two
  states it reaches (a pinch of two contacts, and a later one with a third contact).\<close>

definition touch :: "int \<Rightarrow> real \<Rightarrow> real \<Rightarrow> PointerEvent" where
  "touch i px py = \<lparr> pointerId = i, clientX = px, clientY = py \<rparr>"

definition all_handlers :: decoder where
  "all_handlers =
     on zoomstop 6 (on zoomupdate 5 (on zoomstart 4
       (on dragstop 3 (on dragupdate 2 (on dragstart 1 new_decoder)))))"

definition pinch :: decoder where
  "pinch = all_handlers\<lparr>cache := [touch 1 6 0, touch 2 6 8], this_delta := 8\<rparr>"

definition triple :: decoder where
  "triple = all_handlers\<lparr>cache := [touch 1 6 0, touch 2 6 10, touch 3 0 10], this_delta := 8\<rparr>"

text \<open>Further states: two contacts ten apart with the zoom anchor of their start; two
  contacts at one position, before the zoom starts; and two contacts whose zoom started
  while they were at one position.\<close>

definition spread :: decoder where
  "spread = all_handlers\<lparr>cache := [touch 1 0 0, touch 2 10 0], this_delta := 10\<rparr>"

definition coincident :: decoder where
  "coincident = all_handlers\<lparr>cache := [touch 1 5 5, touch 2 5 5], this_delta := 3\<rparr>"

definition degenerate :: decoder where
  "degenerate =
     all_handlers\<lparr>cache := [touch 1 5 5, touch 2 5 9], this_x := 5, this_y := 5, this_delta := 0\<rparr>"

text \<open>The identities of the contact-added notifications of a sequence, in arrival order.\<close>

fun arrivals :: "notification list \<Rightarrow> int list" where
  "arrivals [] = []"
| "arrivals (Added event # ns) = pointerId event # arrivals ns"
| "arrivals (Updated event # ns) = arrivals ns"
| "arrivals (Removed event # ns) = arrivals ns"

text \<open>The identities that are active after a sequence, in arrival order, starting from the
  active identities \<open>act\<close>: an addition appends its identity, a removal cancels the earliest
  active arrival of its identity, an update changes nothing.\<close>

fun active :: "int list \<Rightarrow> notification list \<Rightarrow> int list" where
  "active act [] = act"
| "active act (Added event # ns) = active (act @ [pointerId event]) ns"
| "active act (Updated event # ns) = active act ns"
| "active act (Removed event # ns) = active (remove1 (pointerId event) act) ns"

text \<open>No contact-added notification of the sequence carries an identity that is active when
  it arrives.\<close>

fun fresh_adds :: "int list \<Rightarrow> notification list \<Rightarrow> bool" where
  "fresh_adds act [] = True"
| "fresh_adds act (Added event # ns) =
     (pointerId event \<notin> set act \<and> fresh_adds (act @ [pointerId event]) ns)"
| "fresh_adds act (Updated event # ns) = fresh_adds act ns"
| "fresh_adds act (Removed event # ns) = fresh_adds (remove1 (pointerId event) act) ns"

text \<open>What a notification does to the cache.\<close>

fun next_cache :: "notification \<Rightarrow> PointerEvent list \<Rightarrow> PointerEvent list" where
  "next_cache (Added event) cs = cs @ [event]"
| "next_cache (Updated event) cs = replace_first event cs"
| "next_cache (Removed event) cs = splice_first event cs"

text \<open>The six handler slots of two states agree.\<close>

definition same_handlers :: "decoder \<Rightarrow> decoder \<Rightarrow> bool" where
  "same_handlers s s' \<longleftrightarrow>
     dragStartHandler s' = dragStartHandler s \<and> dragUpdateHandler s' = dragUpdateHandler s \<and>
     dragStopHandler s' = dragStopHandler s \<and> zoomStartHandler s' = zoomStartHandler s \<and>
     zoomUpdateHandler s' = zoomUpdateHandler s \<and> zoomStopHandler s' = zoomStopHandler s"

section \<open>Closed forms of the operations\<close>

subsection \<open>Cache reads and gesture operations\<close>

lemma cache_at_Inr: "i < length (cache s) \<Longrightarrow> cache_at s i = Inr (cache s ! i)"
  by (simp add: cache_at_def)

lemma drag_payload_Inr:
  "cache s \<noteq> [] \<Longrightarrow>
   drag_payload s = Inr (DragEvent (clientX (cache s ! 0) - this_x s) (clientY (cache s ! 0) - this_y s))"
  by (simp add: drag_payload_def cache_at_Inr)

lemma cache_pair_Inr: "2 \<le> length (cache s) \<Longrightarrow> cache_pair s = Inr (cache s ! 0, cache s ! 1)"
  by (auto simp: cache_pair_def cache_at_def)

lemma zoom_payload_Inr:
  "2 \<le> length (cache s) \<Longrightarrow>
   zoom_payload s = Inr (ZoomEvent (mid_x (cache s ! 0) (cache s ! 1)) (mid_y (cache s ! 0) (cache s ! 1))
                          (js_div (distance (cache s ! 0) (cache s ! 1)) (this_delta s)))"
  by (simp add: zoom_payload_def cache_pair_Inr)

lemma startDrag_Inr:
  "cache s \<noteq> [] \<Longrightarrow>
   startDrag s = Inr (s\<lparr>this_x := clientX (cache s ! 0), this_y := clientY (cache s ! 0)\<rparr>,
                      delivered (dragStartHandler s) (\<lambda>h. CallDrag dragstart h (DragEvent 0 0)))"
  by (simp add: startDrag_def cache_at_Inr drag_payload_Inr delivered_def Let_def split: option.splits)

lemma updateDrag_Inr:
  "cache s \<noteq> [] \<Longrightarrow>
   updateDrag s = Inr (s, delivered (dragUpdateHandler s) (\<lambda>h. CallDrag dragupdate h
      (DragEvent (clientX (cache s ! 0) - this_x s) (clientY (cache s ! 0) - this_y s))))"
  by (simp add: updateDrag_def drag_payload_Inr delivered_def split: option.splits)

lemma stopDrag_Inr:
  "cache s \<noteq> [] \<Longrightarrow>
   stopDrag s = Inr (s, delivered (dragStopHandler s) (\<lambda>h. CallDrag dragstop h
      (DragEvent (clientX (cache s ! 0) - this_x s) (clientY (cache s ! 0) - this_y s))))"
  by (simp add: stopDrag_def drag_payload_Inr delivered_def split: option.splits)

lemma startZoom_Inr:
  "2 \<le> length (cache s) \<Longrightarrow>
   startZoom s = Inr (s\<lparr>this_delta := distance (cache s ! 0) (cache s ! 1)\<rparr>,
      delivered (zoomStartHandler s) (\<lambda>h. CallZoom zoomstart h
        (ZoomEvent (mid_x (cache s ! 0) (cache s ! 1)) (mid_y (cache s ! 0) (cache s ! 1)) (Finite 1))))"
  by (simp add: startZoom_def cache_pair_Inr delivered_def Let_def split: option.splits)

lemma updateZoom_Inr:
  "2 \<le> length (cache s) \<Longrightarrow>
   updateZoom s = Inr (s, delivered (zoomUpdateHandler s) (\<lambda>h. CallZoom zoomupdate h
      (ZoomEvent (mid_x (cache s ! 0) (cache s ! 1)) (mid_y (cache s ! 0) (cache s ! 1))
         (js_div (distance (cache s ! 0) (cache s ! 1)) (this_delta s)))))"
  by (simp add: updateZoom_def zoom_payload_Inr delivered_def split: option.splits)

lemma stopZoom_Inr:
  "2 \<le> length (cache s) \<Longrightarrow>
   stopZoom s = Inr (s, delivered (zoomStopHandler s) (\<lambda>h. CallZoom zoomstop h
      (ZoomEvent (mid_x (cache s ! 0) (cache s ! 1)) (mid_y (cache s ! 0) (cache s ! 1))
         (js_div (distance (cache s ! 0) (cache s ! 1)) (this_delta s)))))"
  by (simp add: stopZoom_def zoom_payload_Inr delivered_def split: option.splits)

lemma and_then_Inr: "and_then (Inr (s1, out1)) f = (case f s1 of Inl e \<Rightarrow> Inl e | Inr (s2, out2) \<Rightarrow> Inr (s2, out1 @ out2))"
  by (simp add: and_then_def)

lemma length_replace_first: "length (replace_first event cs) = length cs"
  by (induction cs) auto

lemma ids_replace_first: "map pointerId (replace_first event cs) = map pointerId cs"
  by (induction cs) auto

lemma ids_splice_first: "map pointerId (splice_first event cs) = remove1 (pointerId event) (map pointerId cs)"
  by (induction cs) auto

lemma replace_first_unmatched: "pointerId event \<notin> pointerId ` set cs \<Longrightarrow> replace_first event cs = cs"
  by (induction cs) auto

lemma splice_first_unmatched: "pointerId event \<notin> pointerId ` set cs \<Longrightarrow> splice_first event cs = cs"
  by (induction cs) auto

lemma length_splice_first_ge: "length cs - 1 \<le> length (splice_first event cs)"
  by (induction cs) auto

lemma length_splice_first_matched:
  "pointerId event \<in> pointerId ` set cs \<Longrightarrow> length cs = Suc (length (splice_first event cs))"
  by (induction cs) auto

subsection \<open>The notifications\<close>

text \<open>Each notification, by the size of the cache when it arrives. None of them fails.\<close>

lemma handlePointerDown_Inr:
  "handlePointerDown event s =
     (let s1 = s\<lparr>cache := cache s @ [event]\<rparr>; c0 = cache s1 ! 0; c1 = cache s1 ! 1 in
      if length (cache s) = 0 then
        Inr (s1\<lparr>this_x := clientX c0, this_y := clientY c0\<rparr>,
             delivered (dragStartHandler s) (\<lambda>h. CallDrag dragstart h (DragEvent 0 0)))
      else if length (cache s) = 1 then
        Inr (s1\<lparr>this_delta := distance c0 c1\<rparr>,
             delivered (dragStopHandler s) (\<lambda>h. CallDrag dragstop h
                (DragEvent (clientX c0 - this_x s) (clientY c0 - this_y s))) @
             delivered (zoomStartHandler s) (\<lambda>h. CallZoom zoomstart h
                (ZoomEvent (mid_x c0 c1) (mid_y c0 c1) (Finite 1))))
      else if length (cache s) = 2 then
        Inr (s1, delivered (zoomStopHandler s) (\<lambda>h. CallZoom zoomstop h
                (ZoomEvent (mid_x c0 c1) (mid_y c0 c1) (js_div (distance c0 c1) (this_delta s)))))
      else Inr (s1, []))"
proof -
  consider "length (cache s) = 0" | "length (cache s) = 1" | "length (cache s) = 2" | "3 \<le> length (cache s)"
    by linarith
  then show ?thesis
  proof cases
    case 1
    then show ?thesis
      by (simp add: handlePointerDown_def Let_def startDrag_Inr)
  next
    case 2
    then show ?thesis
      by (simp add: handlePointerDown_def Let_def stopDrag_Inr startZoom_Inr and_then_Inr)
  next
    case 3
    then show ?thesis
      by (simp add: handlePointerDown_def Let_def stopZoom_Inr)
  next
    case 4
    then show ?thesis
      by (auto simp add: handlePointerDown_def Let_def)
  qed
qed

lemma handlePointerMove_Inr:
  "handlePointerMove event s =
     (let s1 = s\<lparr>cache := replace_first event (cache s)\<rparr>; c0 = cache s1 ! 0; c1 = cache s1 ! 1 in
      if length (cache s) = 1 then
        Inr (s1, delivered (dragUpdateHandler s) (\<lambda>h. CallDrag dragupdate h
                (DragEvent (clientX c0 - this_x s) (clientY c0 - this_y s))))
      else if length (cache s) = 2 then
        Inr (s1, delivered (zoomUpdateHandler s) (\<lambda>h. CallZoom zoomupdate h
                (ZoomEvent (mid_x c0 c1) (mid_y c0 c1) (js_div (distance c0 c1) (this_delta s)))))
      else Inr (s1, []))"
proof -
  consider "length (cache s) = 1" | "length (cache s) = 2" | "length (cache s) \<noteq> 1 \<and> length (cache s) \<noteq> 2"
    by linarith
  then show ?thesis
  proof cases
    case 1
    then have "replace_first event (cache s) \<noteq> []"
      using length_replace_first [of event "cache s"] by auto
    with 1 show ?thesis
      by (simp add: handlePointerMove_def Let_def updateDrag_Inr length_replace_first)
  next
    case 2
    then show ?thesis
      by (simp add: handlePointerMove_def Let_def updateZoom_Inr length_replace_first)
  next
    case 3
    then show ?thesis
      by (simp add: handlePointerMove_def Let_def length_replace_first)
  qed
qed

lemma handlePointerUp_Inr:
  "handlePointerUp event s =
     (let c0 = cache s ! 0; c1 = cache s ! 1; s2 = s\<lparr>cache := splice_first event (cache s)\<rparr> in
      if length (cache s) = 1 then
        Inr (s2, delivered (dragStopHandler s) (\<lambda>h. CallDrag dragstop h
                (DragEvent (clientX c0 - this_x s) (clientY c0 - this_y s))))
      else if length (cache s) = 2 then
        Inr (s2\<lparr>this_x := clientX (cache s2 ! 0), this_y := clientY (cache s2 ! 0)\<rparr>,
             delivered (zoomStopHandler s) (\<lambda>h. CallZoom zoomstop h
                (ZoomEvent (mid_x c0 c1) (mid_y c0 c1) (js_div (distance c0 c1) (this_delta s)))) @
             delivered (dragStartHandler s) (\<lambda>h. CallDrag dragstart h (DragEvent 0 0)))
      else if length (cache s) = 3 then
        Inr (s2\<lparr>this_delta := distance c0 c1\<rparr>,
             delivered (zoomStartHandler s) (\<lambda>h. CallZoom zoomstart h
                (ZoomEvent (mid_x c0 c1) (mid_y c0 c1) (Finite 1))))
      else Inr (s2, []))"
proof -
  consider "length (cache s) = 1" | "length (cache s) = 2" | "length (cache s) = 3"
    | "length (cache s) \<noteq> 1 \<and> length (cache s) \<noteq> 2 \<and> length (cache s) \<noteq> 3"
    by linarith
  then show ?thesis
  proof cases
    case 1
    then have "cache s \<noteq> []" by auto
    with 1 show ?thesis
      by (simp add: handlePointerUp_def Let_def stopDrag_Inr and_then_Inr)
  next
    case 2
    then have "splice_first event (cache s) \<noteq> []"
      using length_splice_first_ge [of "cache s" event] by auto
    with 2 show ?thesis
      by (simp add: handlePointerUp_def Let_def stopZoom_Inr startDrag_Inr and_then_Inr)
  next
    case 3
    then show ?thesis
      by (simp add: handlePointerUp_def Let_def startZoom_Inr and_then_Inr)
  next
    case 4
    then show ?thesis
      by (simp add: handlePointerUp_def Let_def and_then_Inr)
  qed
qed

section \<open>Concrete runs\<close>

text \<open>Evaluation rules for the concrete inputs, and the runs from \<open>all_handlers\<close> that reach
  the concrete states.\<close>

lemma delivered_simps [simp]:
  "delivered None mk = []" "delivered (Some h) mk = [mk h]"
  by (simp_all add: delivered_def)

lemma touch_sel [simp]:
  "pointerId (touch i px py) = i" "clientX (touch i px py) = px" "clientY (touch i px py) = py"
  by (simp_all add: touch_def)

lemma all_handlers_sel [simp]:
  "cache all_handlers = []" "this_x all_handlers = 0" "this_y all_handlers = 0"
  "this_delta all_handlers = 0"
  "dragStartHandler all_handlers = Some 1" "dragUpdateHandler all_handlers = Some 2"
  "dragStopHandler all_handlers = Some 3" "zoomStartHandler all_handlers = Some 4"
  "zoomUpdateHandler all_handlers = Some 5" "zoomStopHandler all_handlers = Some 6"
  by (simp_all add: all_handlers_def new_decoder_def)

lemma distance_same_x: "clientX c0 = clientX c1 \<Longrightarrow> distance c0 c1 = \<bar>clientY c0 - clientY c1\<bar>"
  by (simp add: distance_def)

lemma distance_same_y: "clientY c0 = clientY c1 \<Longrightarrow> distance c0 c1 = \<bar>clientX c0 - clientX c1\<bar>"
  by (simp add: distance_def)

lemma distance_nonneg: "0 \<le> distance c0 c1"
  by (simp add: distance_def Let_def)

lemma pinch_reachable:
  "run [Added (touch 1 0 0), Updated (touch 1 6 0), Added (touch 2 6 8)] all_handlers =
     Inr (pinch, [CallDrag dragstart 1 (DragEvent 0 0), CallDrag dragupdate 2 (DragEvent 6 0),
                  CallDrag dragstop 3 (DragEvent 6 0), CallZoom zoomstart 4 (ZoomEvent 6 4 (Finite 1))])"
  by (simp add: handlePointerDown_Inr handlePointerMove_Inr and_then_Inr pinch_def
        distance_same_x mid_x_def mid_y_def)

lemma triple_reachable:
  "run [Added (touch 3 0 10), Updated (touch 2 6 10)] pinch =
     Inr (triple, [CallZoom zoomstop 6 (ZoomEvent 6 4 (Finite 1))])"
  by (simp add: handlePointerDown_Inr handlePointerMove_Inr and_then_Inr pinch_def triple_def
        distance_same_x mid_x_def mid_y_def js_div_def)

lemma spread_reachable:
  "run [Added (touch 1 0 0), Added (touch 2 10 0)] all_handlers =
     Inr (spread, [CallDrag dragstart 1 (DragEvent 0 0), CallDrag dragstop 3 (DragEvent 0 0),
                   CallZoom zoomstart 4 (ZoomEvent 5 0 (Finite 1))])"
  by (simp add: handlePointerDown_Inr and_then_Inr spread_def distance_same_y mid_x_def mid_y_def)

lemma degenerate_reachable:
  "run [Added (touch 1 5 5), Added (touch 2 5 5), Updated (touch 2 5 9)] all_handlers =
     Inr (degenerate,
          [CallDrag dragstart 1 (DragEvent 0 0), CallDrag dragstop 3 (DragEvent 0 0),
           CallZoom zoomstart 4 (ZoomEvent 5 5 (Finite 1)),
           CallZoom zoomupdate 5 (ZoomEvent 5 7 PosInfinity)])"
  by (simp add: handlePointerDown_Inr handlePointerMove_Inr and_then_Inr degenerate_def
        distance_same_x mid_x_def mid_y_def js_div_def)

section \<open>Notifications whose identity matches no cached contact\<close>

text \<open>
  C1, as stated: an update or a removal whose identity matches no cached contact is a silent
  no-op. The code does not look at whether a contact matched: it still runs the gesture
  operations chosen by the size of the cache. In the pinch state a removal of an unknown
  identity fires zoomstop and dragstart and moves the drag anchor from 0 to 6.
\<close>

theorem unmatched_remove_counterexample:
  "pointerId (touch 9 1 1) \<notin> pointerId ` set (cache pinch) \<and>
   handlePointerUp (touch 9 1 1) pinch =
     Inr (pinch\<lparr>this_x := 6, this_y := 0\<rparr>,
          [CallZoom zoomstop 6 (ZoomEvent 6 4 (Finite 1)), CallDrag dragstart 1 (DragEvent 0 0)]) \<and>
   this_x pinch = 0 \<and>
   handlePointerUp (touch 9 1 1) pinch \<noteq> Inr (pinch, [])"
  by (simp add: handlePointerUp_Inr pinch_def distance_same_x mid_x_def mid_y_def js_div_def)

text \<open>
  C1, amended: an update or a removal whose identity matches no cached contact does not
  fail and leaves the cache unchanged, and the gesture operation chosen by the size of the
  cache still runs. An update fires dragupdate at size 1 and zoomupdate at size 2 and
  changes no field. A removal fires dragstop at size 1; at size 2 it fires zoomstop, then
  dragstart, and sets the drag anchor to the position of cache[0]; at size 3 it fires
  zoomstart and sets the zoom anchor to the distance of cache[0] and cache[1]. At any
  other size nothing is fired and nothing changes.
\<close>

theorem unmatched_identity:
  assumes "pointerId event \<notin> pointerId ` set (cache s)"
  shows "handlePointerMove event s =
           Inr (s, if length (cache s) = 1 then
                     delivered (dragUpdateHandler s) (\<lambda>h. CallDrag dragupdate h
                       (DragEvent (clientX (cache s ! 0) - this_x s) (clientY (cache s ! 0) - this_y s)))
                   else if length (cache s) = 2 then
                     delivered (zoomUpdateHandler s) (\<lambda>h. CallZoom zoomupdate h
                       (ZoomEvent (mid_x (cache s ! 0) (cache s ! 1)) (mid_y (cache s ! 0) (cache s ! 1))
                          (js_div (distance (cache s ! 0) (cache s ! 1)) (this_delta s))))
                   else []) \<and>
         handlePointerUp event s =
           (if length (cache s) = 1 then
              Inr (s, delivered (dragStopHandler s) (\<lambda>h. CallDrag dragstop h
                     (DragEvent (clientX (cache s ! 0) - this_x s) (clientY (cache s ! 0) - this_y s))))
            else if length (cache s) = 2 then
              Inr (s\<lparr>this_x := clientX (cache s ! 0), this_y := clientY (cache s ! 0)\<rparr>,
                   delivered (zoomStopHandler s) (\<lambda>h. CallZoom zoomstop h
                     (ZoomEvent (mid_x (cache s ! 0) (cache s ! 1)) (mid_y (cache s ! 0) (cache s ! 1))
                        (js_div (distance (cache s ! 0) (cache s ! 1)) (this_delta s)))) @
                   delivered (dragStartHandler s) (\<lambda>h. CallDrag dragstart h (DragEvent 0 0)))
            else if length (cache s) = 3 then
              Inr (s\<lparr>this_delta := distance (cache s ! 0) (cache s ! 1)\<rparr>,
                   delivered (zoomStartHandler s) (\<lambda>h. CallZoom zoomstart h
                     (ZoomEvent (mid_x (cache s ! 0) (cache s ! 1)) (mid_y (cache s ! 0) (cache s ! 1))
                        (Finite 1))))
            else Inr (s, []))"
proof -
  have r: "replace_first event (cache s) = cache s"
    using assms by (rule replace_first_unmatched)
  have d: "splice_first event (cache s) = cache s"
    using assms by (rule splice_first_unmatched)
  have move: "handlePointerMove event s = Inr (s, if length (cache s) = 1 then
                     delivered (dragUpdateHandler s) (\<lambda>h. CallDrag dragupdate h
                       (DragEvent (clientX (cache s ! 0) - this_x s) (clientY (cache s ! 0) - this_y s)))
                   else if length (cache s) = 2 then
                     delivered (zoomUpdateHandler s) (\<lambda>h. CallZoom zoomupdate h
                       (ZoomEvent (mid_x (cache s ! 0) (cache s ! 1)) (mid_y (cache s ! 0) (cache s ! 1))
                          (js_div (distance (cache s ! 0) (cache s ! 1)) (this_delta s))))
                   else [])"
    by (simp add: handlePointerMove_Inr Let_def r)
  have up: "handlePointerUp event s =
           (if length (cache s) = 1 then
              Inr (s, delivered (dragStopHandler s) (\<lambda>h. CallDrag dragstop h
                     (DragEvent (clientX (cache s ! 0) - this_x s) (clientY (cache s ! 0) - this_y s))))
            else if length (cache s) = 2 then
              Inr (s\<lparr>this_x := clientX (cache s ! 0), this_y := clientY (cache s ! 0)\<rparr>,
                   delivered (zoomStopHandler s) (\<lambda>h. CallZoom zoomstop h
                     (ZoomEvent (mid_x (cache s ! 0) (cache s ! 1)) (mid_y (cache s ! 0) (cache s ! 1))
                        (js_div (distance (cache s ! 0) (cache s ! 1)) (this_delta s)))) @
                   delivered (dragStartHandler s) (\<lambda>h. CallDrag dragstart h (DragEvent 0 0)))
            else if length (cache s) = 3 then
              Inr (s\<lparr>this_delta := distance (cache s ! 0) (cache s ! 1)\<rparr>,
                   delivered (zoomStartHandler s) (\<lambda>h. CallZoom zoomstart h
                     (ZoomEvent (mid_x (cache s ! 0) (cache s ! 1)) (mid_y (cache s ! 0) (cache s ! 1))
                        (Finite 1))))
            else Inr (s, []))"
    by (simp add: handlePointerUp_Inr Let_def d)
  from move up show ?thesis by (rule conjI)
qed

theorem unmatched_identity_witness:
  "pointerId (touch 9 1 1) \<notin> pointerId ` set (cache pinch) \<and>
   handlePointerMove (touch 9 1 1) pinch =
     Inr (pinch, [CallZoom zoomupdate 5 (ZoomEvent 6 4 (Finite 1))]) \<and>
   handlePointerUp (touch 9 1 1) pinch =
     Inr (pinch\<lparr>this_x := 6, this_y := 0\<rparr>,
          [CallZoom zoomstop 6 (ZoomEvent 6 4 (Finite 1)), CallDrag dragstart 1 (DragEvent 0 0)])"
proof -
  have h: "pointerId (touch 9 1 1) \<notin> pointerId ` set (cache pinch)"
    by (simp add: pinch_def)
  show ?thesis
    using h unmatched_identity [OF h]
    by (simp add: pinch_def distance_same_x mid_x_def mid_y_def js_div_def)
qed

section \<open>Sequences of notifications never fail\<close>

lemma notify_total:
  "\<exists>s' out. notify n s = Inr (s', out) \<and> cache s' = next_cache n (cache s) \<and> same_handlers s s'"
proof (cases n)
  case (Added event)
  then show ?thesis
    by (simp add: handlePointerDown_Inr Let_def same_handlers_def)
next
  case (Updated event)
  then show ?thesis
    by (simp add: handlePointerMove_Inr Let_def same_handlers_def)
next
  case (Removed event)
  then show ?thesis
    by (simp add: handlePointerUp_Inr Let_def same_handlers_def)
qed

lemma notify_no_handlers:
  assumes "no_handlers s"
  shows "\<exists>s'. notify n s = Inr (s', []) \<and> no_handlers s'"
proof (cases n)
  case (Added event)
  with assms show ?thesis
    by (simp add: handlePointerDown_Inr Let_def no_handlers_def)
next
  case (Updated event)
  with assms show ?thesis
    by (simp add: handlePointerMove_Inr Let_def no_handlers_def)
next
  case (Removed event)
  with assms show ?thesis
    by (simp add: handlePointerUp_Inr Let_def no_handlers_def)
qed

lemma run_total:
  "\<exists>s' out. run ns s = Inr (s', out) \<and>
     map pointerId (cache s') = active (map pointerId (cache s)) ns \<and> same_handlers s s'"
proof (induction ns arbitrary: s)
  case Nil
  show ?case by (simp add: same_handlers_def)
next
  case (Cons n ns)
  obtain s1 out1 where step: "notify n s = Inr (s1, out1)"
    and c1: "cache s1 = next_cache n (cache s)" and h1: "same_handlers s s1"
    using notify_total [of n s] by blast
  obtain s2 out2 where rest: "run ns s1 = Inr (s2, out2)"
    and c2: "map pointerId (cache s2) = active (map pointerId (cache s1)) ns"
    and h2: "same_handlers s1 s2"
    using Cons.IH [of s1] by blast
  have ids: "active (map pointerId (cache s1)) ns = active (map pointerId (cache s)) (n # ns)"
    using c1 by (cases n) (simp_all add: ids_replace_first ids_splice_first)
  have "run (n # ns) s = Inr (s2, out1 @ out2)"
    using step rest by (simp add: and_then_Inr)
  moreover have "same_handlers s s2"
    using h1 h2 by (simp add: same_handlers_def)
  ultimately show ?case
    using c2 ids by simp
qed

lemma run_no_handlers:
  "no_handlers s \<Longrightarrow> \<exists>s'. run ns s = Inr (s', []) \<and> no_handlers s'"
proof (induction ns arbitrary: s)
  case Nil
  then show ?case by simp
next
  case (Cons n ns)
  obtain s1 where step: "notify n s = Inr (s1, [])" and q: "no_handlers s1"
    using notify_no_handlers [OF Cons.prems, of n] by blast
  obtain s2 where rest: "run ns s1 = Inr (s2, [])" and q2: "no_handlers s2"
    using Cons.IH [OF q] by blast
  have "run (n # ns) s = Inr (s2, [])"
    using step rest by (simp add: and_then_Inr)
  with q2 show ?case by blast
qed

section \<open>The cache and the arrival order\<close>

lemma subseq_remove1_self: "subseq (remove1 x xs) xs"
  by (induction xs) auto

lemma subseq_active: "subseq (active act ns) (act @ arrivals ns)"
proof (induction act ns rule: active.induct)
  case (1 act)
  show ?case by simp
next
  case (2 act event ns)
  then show ?case by simp
next
  case (3 act event ns)
  then show ?case by simp
next
  case (4 act event ns)
  have a: "subseq (remove1 (pointerId event) act @ arrivals ns) (act @ arrivals ns)"
    by (intro list_emb_append_mono subseq_remove1_self subseq_order.order_refl)
  have b: "subseq (active (remove1 (pointerId event) act) ns)
             (remove1 (pointerId event) act @ arrivals ns)"
    by (rule 4)
  show ?case
    using subseq_order.order_trans [OF b a] by simp
qed

lemma distinct_active: "distinct act \<Longrightarrow> fresh_adds act ns \<Longrightarrow> distinct (active act ns)"
  by (induction act ns rule: active.induct) auto

text \<open>
  C2, as stated: for every sequence of notifications from an empty cache, no two cached
  contacts share an identity. \<open>handlePointerDown\<close> pushes without looking at the cache, so
  two additions with the same identity leave two cached contacts with that identity.
\<close>

theorem duplicate_add_counterexample:
  "cache new_decoder = [] \<and>
   run [Added (touch 1 0 0), Added (touch 1 0 5)] new_decoder =
     Inr (new_decoder\<lparr>cache := [touch 1 0 0, touch 1 0 5], this_delta := 5\<rparr>, []) \<and>
   \<not> distinct (map pointerId [touch 1 0 0, touch 1 0 5])"
  by (simp add: handlePointerDown_Inr and_then_Inr new_decoder_def distance_same_x)

text \<open>
  C2, amended: for every sequence of contact-added, -updated and -removed notifications
  applied to a decoder with an empty cache, the run does not fail and the identities of the
  cache, in cache order, are the currently active identities in arrival order, which is a
  sub-sequence of the arrival order (removals do not reorder survivors). If moreover no
  contact-added notification carries an identity that is active when it arrives, the cache
  never contains two contacts with the same identity.
\<close>

theorem cache_integrity:
  assumes "cache s = []"
  shows "\<exists>s' out. run ns s = Inr (s', out) \<and>
           map pointerId (cache s') = active [] ns \<and>
           subseq (map pointerId (cache s')) (arrivals ns) \<and>
           (fresh_adds [] ns \<longrightarrow> distinct (map pointerId (cache s')))"
proof -
  obtain s' out where r: "run ns s = Inr (s', out)"
    and ids: "map pointerId (cache s') = active (map pointerId (cache s)) ns"
    using run_total [of ns s] by blast
  have a: "map pointerId (cache s') = active [] ns"
    using ids assms by simp
  have b: "subseq (active [] ns) (arrivals ns)"
    using subseq_active [of "[]" ns] by simp
  have c: "fresh_adds [] ns \<longrightarrow> distinct (active [] ns)"
    using distinct_active [of "[]" ns] by simp
  show ?thesis
    using r a b c by simp
qed

theorem cache_integrity_witness:
  "cache new_decoder = [] \<and>
   fresh_adds [] [Added (touch 1 0 0), Added (touch 2 0 5), Updated (touch 1 3 0),
                  Removed (touch 1 3 0), Added (touch 3 4 4)] \<and>
   (\<exists>s' out. run [Added (touch 1 0 0), Added (touch 2 0 5), Updated (touch 1 3 0),
                   Removed (touch 1 3 0), Added (touch 3 4 4)] new_decoder = Inr (s', out) \<and>
      map pointerId (cache s') = [2, 3] \<and>
      subseq (map pointerId (cache s')) [1, 2, 3] \<and>
      distinct (map pointerId (cache s')))"
proof -
  have h: "cache new_decoder = []"
    by (simp add: new_decoder_def)
  show ?thesis
    using h cache_integrity [OF h, of "[Added (touch 1 0 0), Added (touch 2 0 5),
        Updated (touch 1 3 0), Removed (touch 1 3 0), Added (touch 3 4 4)]"]
    by simp
qed

section \<open>Removals\<close>

text \<open>
  C3: a contact-removed notification that arrives while exactly three contacts are cached
  fires zoomstart computed from the pair at index 0 and 1 of the cache before the removal:
  the zoom anchor becomes their distance, the scale is 1 and the centre is their midpoint,
  whichever contact the notification names. The removal itself comes after.
\<close>

theorem release_from_three:
  assumes "length (cache s) = 3"
  shows "handlePointerUp event s =
           Inr (s\<lparr>cache := splice_first event (cache s),
                  this_delta := distance (cache s ! 0) (cache s ! 1)\<rparr>,
                delivered (zoomStartHandler s) (\<lambda>h. CallZoom zoomstart h
                  (ZoomEvent (mid_x (cache s ! 0) (cache s ! 1)) (mid_y (cache s ! 0) (cache s ! 1))
                     (Finite 1))))"
  using assms by (simp add: handlePointerUp_Inr Let_def)

theorem release_from_three_witness:
  "length (cache triple) = 3 \<and>
   handlePointerUp (touch 1 6 0) triple =
     Inr (triple\<lparr>cache := [touch 2 6 10, touch 3 0 10], this_delta := 10\<rparr>,
          [CallZoom zoomstart 4 (ZoomEvent 6 5 (Finite 1))]) \<and>
   handlePointerUp (touch 3 0 10) triple =
     Inr (triple\<lparr>cache := [touch 1 6 0, touch 2 6 10], this_delta := 10\<rparr>,
          [CallZoom zoomstart 4 (ZoomEvent 6 5 (Finite 1))])"
proof -
  have h: "length (cache triple) = 3"
    by (simp add: triple_def)
  show ?thesis
    using h release_from_three [OF h, of "touch 1 6 0"] release_from_three [OF h, of "touch 3 0 10"]
    by (simp add: triple_def distance_same_x mid_x_def mid_y_def)
qed

text \<open>
  C4, as stated: every contact-removed notification that arrives while exactly two
  contacts are cached removes the contact and starts the drag for the one that remains.
  The deferred \<open>startDrag\<close> is decided by the size of the cache alone: when the identity
  is not cached nothing is spliced, both contacts stay cached, and zoomstop and dragstart
  are fired all the same.
\<close>

theorem release_unmatched_counterexample:
  "length (cache pinch) = 2 \<and>
   handlePointerUp (touch 4 2 2) pinch =
     Inr (pinch\<lparr>this_x := 6, this_y := 0\<rparr>,
          [CallZoom zoomstop 6 (ZoomEvent 6 4 (Finite 1)), CallDrag dragstart 1 (DragEvent 0 0)]) \<and>
   cache (pinch\<lparr>this_x := 6, this_y := 0\<rparr>) = [touch 1 6 0, touch 2 6 8] \<and>
   length (cache (pinch\<lparr>this_x := 6, this_y := 0\<rparr>)) \<noteq> 1"
  by (simp add: handlePointerUp_Inr pinch_def distance_same_x mid_x_def mid_y_def js_div_def)

text \<open>
  C4, amended: a contact-removed notification that arrives while exactly two contacts are
  cached, and whose identity is the identity of one of them, first fires zoomstop computed
  from the two cached positions before the removal, then removes the contact, then fires
  dragstart with displacement {0,0} for the remaining contact; the drag anchor is that
  contact's position. The remaining contact is cache[1] when the identity is that of
  cache[0], and cache[0] otherwise.
\<close>

theorem release_from_two:
  assumes "length (cache s) = 2"
    and "pointerId event \<in> pointerId ` set (cache s)"
  shows "handlePointerUp event s =
           Inr (s\<lparr>cache := [if pointerId (cache s ! 0) = pointerId event
                              then cache s ! 1 else cache s ! 0],
                  this_x := clientX (if pointerId (cache s ! 0) = pointerId event
                                     then cache s ! 1 else cache s ! 0),
                  this_y := clientY (if pointerId (cache s ! 0) = pointerId event
                                     then cache s ! 1 else cache s ! 0)\<rparr>,
                delivered (zoomStopHandler s) (\<lambda>h. CallZoom zoomstop h
                  (ZoomEvent (mid_x (cache s ! 0) (cache s ! 1)) (mid_y (cache s ! 0) (cache s ! 1))
                     (js_div (distance (cache s ! 0) (cache s ! 1)) (this_delta s)))) @
                delivered (dragStartHandler s) (\<lambda>h. CallDrag dragstart h (DragEvent 0 0)))"
proof -
  obtain c0 c1 where c: "cache s = [c0, c1]"
    using assms(1) by (cases "cache s"; cases "tl (cache s)") auto
  have rest: "splice_first event (cache s) =
                [if pointerId c0 = pointerId event then c1 else c0]"
    using assms(2) c by auto
  show ?thesis
    using assms(1) rest c by (simp add: handlePointerUp_Inr Let_def)
qed

theorem release_from_two_witness:
  "length (cache pinch) = 2 \<and>
   pointerId (touch 1 7 1) \<in> pointerId ` set (cache pinch) \<and>
   handlePointerUp (touch 1 7 1) pinch =
     Inr (pinch\<lparr>cache := [touch 2 6 8], this_x := 6, this_y := 8\<rparr>,
          [CallZoom zoomstop 6 (ZoomEvent 6 4 (Finite 1)), CallDrag dragstart 1 (DragEvent 0 0)]) \<and>
   pointerId (touch 2 7 1) \<in> pointerId ` set (cache pinch) \<and>
   handlePointerUp (touch 2 7 1) pinch =
     Inr (pinch\<lparr>cache := [touch 1 6 0], this_x := 6, this_y := 0\<rparr>,
          [CallZoom zoomstop 6 (ZoomEvent 6 4 (Finite 1)), CallDrag dragstart 1 (DragEvent 0 0)])"
proof -
  have h: "length (cache pinch) = 2"
    by (simp add: pinch_def)
  have k1: "pointerId (touch 1 7 1) \<in> pointerId ` set (cache pinch)"
    by (simp add: pinch_def)
  have k2: "pointerId (touch 2 7 1) \<in> pointerId ` set (cache pinch)"
    by (simp add: pinch_def)
  show ?thesis
    using h k1 k2 release_from_two [OF h k1] release_from_two [OF h k2]
    by (simp add: pinch_def distance_same_x mid_x_def mid_y_def js_div_def)
qed

section \<open>Updates while frozen or idle\<close>

text \<open>
  C7: while three or more contacts are cached, and while the cache is empty, a
  contact-updated notification fires no event; it only overwrites the matching contact, so
  the cache keeps its size.
\<close>

theorem frozen_update_silent:
  assumes "3 \<le> length (cache s) \<or> cache s = []"
  shows "handlePointerMove event s = Inr (s\<lparr>cache := replace_first event (cache s)\<rparr>, []) \<and>
         length (replace_first event (cache s)) = length (cache s)"
  using assms by (auto simp add: handlePointerMove_Inr Let_def length_replace_first)

theorem frozen_update_silent_witness:
  "(3 \<le> length (cache triple) \<or> cache triple = []) \<and>
   handlePointerMove (touch 1 1 2) triple =
     Inr (triple\<lparr>cache := [touch 1 1 2, touch 2 6 10, touch 3 0 10]\<rparr>, []) \<and>
   (3 \<le> length (cache all_handlers) \<or> cache all_handlers = []) \<and>
   handlePointerMove (touch 1 1 2) all_handlers = Inr (all_handlers, [])"
proof -
  have h: "3 \<le> length (cache triple) \<or> cache triple = []"
    by (simp add: triple_def)
  have k: "3 \<le> length (cache all_handlers) \<or> cache all_handlers = []"
    by simp
  show ?thesis
    using h k frozen_update_silent [OF h, of "touch 1 1 2"] frozen_update_silent [OF k, of "touch 1 1 2"]
    by (simp add: triple_def all_handlers_def new_decoder_def)
qed

section \<open>Runs with no handler registered\<close>

text \<open>
  C9: every sequence of notifications runs to completion without an error, whatever the
  state it starts from, so every read of cache[0] and cache[1] made by a gesture operation
  is in range. With no handler registered no call is made, and no handler appears: only
  the decoder's own state changes.
\<close>

theorem no_handler_run:
  "(\<exists>s' out. run ns s = Inr (s', out)) \<and>
   (no_handlers s \<longrightarrow> (\<exists>s'. run ns s = Inr (s', []) \<and> no_handlers s'))"
  using run_total [of ns s] run_no_handlers [of s ns] by blast

theorem no_handler_run_witness:
  "no_handlers new_decoder \<and>
   (\<exists>s'. run [Removed (touch 7 0 0), Updated (touch 7 0 0), Added (touch 1 0 0),
               Added (touch 2 0 5), Added (touch 3 4 4), Removed (touch 1 0 0),
               Removed (touch 2 0 5), Removed (touch 2 0 5), Removed (touch 3 4 4)] new_decoder
            = Inr (s', []) \<and> no_handlers s')"
proof -
  have h: "no_handlers new_decoder"
    by (simp add: no_handlers_def new_decoder_def)
  show ?thesis
    using h no_handler_run [of "[Removed (touch 7 0 0), Updated (touch 7 0 0), Added (touch 1 0 0),
               Added (touch 2 0 5), Added (touch 3 4 4), Removed (touch 1 0 0),
               Removed (touch 2 0 5), Removed (touch 2 0 5), Removed (touch 3 4 4)]" new_decoder]
    by simp
qed

section \<open>The gesture operations\<close>

lemma in_delivered: "c \<in> set (delivered slot mk) \<longleftrightarrow> (\<exists>h. slot = Some h \<and> c = mk h)"
  by (cases slot) auto

lemma js_div_nonzero: "b \<noteq> 0 \<Longrightarrow> js_div a b = Finite (a / b)"
  by (simp add: js_div_def)

lemma js_div_zero: "0 \<le> a \<Longrightarrow> js_div a 0 = (if a = 0 then NaN else PosInfinity)"
  by (simp add: js_div_def)

lemma distance_coincident:
  "clientX c0 = clientX c1 \<Longrightarrow> clientY c0 = clientY c1 \<Longrightarrow> distance c0 c1 = 0"
  by (simp add: distance_def)

text \<open>
  C5: whenever drag starts, the drag anchor becomes the current position of cache[0] and
  the dragstart event carries the displacement {0,0}. This holds for \<open>startDrag\<close> on any
  non-empty cache, and for the dragstart fired by any notification: after it, the anchor
  is the position of the first cached contact.
\<close>

theorem drag_start_anchor:
  "(cache s \<noteq> [] \<longrightarrow>
      startDrag s =
        Inr (s\<lparr>this_x := clientX (cache s ! 0), this_y := clientY (cache s ! 0)\<rparr>,
             delivered (dragStartHandler s) (\<lambda>h. CallDrag dragstart h (DragEvent 0 0)))) \<and>
   (\<forall>s' out h ev. notify n s = Inr (s', out) \<and> CallDrag dragstart h ev \<in> set out \<longrightarrow>
      ev = DragEvent 0 0 \<and> cache s' \<noteq> [] \<and>
      this_x s' = clientX (cache s' ! 0) \<and> this_y s' = clientY (cache s' ! 0))"
proof -
  have start: "cache s \<noteq> [] \<longrightarrow>
      startDrag s =
        Inr (s\<lparr>this_x := clientX (cache s ! 0), this_y := clientY (cache s ! 0)\<rparr>,
             delivered (dragStartHandler s) (\<lambda>h. CallDrag dragstart h (DragEvent 0 0)))"
    by (simp add: startDrag_Inr)
  have ne: "length (cache s) = 2 \<Longrightarrow> splice_first e (cache s) \<noteq> []" for e
    using length_splice_first_ge [of "cache s" e] by auto
  have fired: "ev = DragEvent 0 0 \<and> cache s' \<noteq> [] \<and>
      this_x s' = clientX (cache s' ! 0) \<and> this_y s' = clientY (cache s' ! 0)"
    if a: "notify n s = Inr (s', out) \<and> CallDrag dragstart h ev \<in> set out" for s' out h ev
  proof (cases n)
    case (Added event)
    with a show ?thesis
      by (auto simp add: handlePointerDown_Inr Let_def in_delivered split: if_splits)
  next
    case (Updated event)
    with a show ?thesis
      by (auto simp add: handlePointerMove_Inr Let_def in_delivered split: if_splits)
  next
    case (Removed event)
    with a ne [of event] show ?thesis
      by (auto simp add: handlePointerUp_Inr Let_def in_delivered split: if_splits)
  qed
  from start fired show ?thesis by blast
qed

theorem drag_start_anchor_witness:
  "cache pinch \<noteq> [] \<and>
   startDrag pinch =
     Inr (pinch\<lparr>this_x := 6, this_y := 0\<rparr>, [CallDrag dragstart 1 (DragEvent 0 0)]) \<and>
   notify (Removed (touch 1 6 0)) pinch =
     Inr (pinch\<lparr>cache := [touch 2 6 8], this_x := 6, this_y := 8\<rparr>,
          [CallZoom zoomstop 6 (ZoomEvent 6 4 (Finite 1)), CallDrag dragstart 1 (DragEvent 0 0)]) \<and>
   CallDrag dragstart 1 (DragEvent 0 0) \<in>
     set [CallZoom zoomstop 6 (ZoomEvent 6 4 (Finite 1)), CallDrag dragstart 1 (DragEvent 0 0)]"
  using drag_start_anchor [of pinch "Removed (touch 1 6 0)"]
  by (simp add: pinch_def handlePointerUp_Inr distance_same_x mid_x_def mid_y_def js_div_def)

text \<open>
  C6: every zoomupdate and zoomstop event carries the midpoint of cache[0] and cache[1] as
  x and y, and as scale their Euclidean distance divided by the zoom anchor, which is the
  distance that \<open>startZoom\<close> recorded. The quotient is the finite one when the anchor is
  not zero.
\<close>

theorem zoom_update_stop_payload:
  assumes "2 \<le> length (cache s)"
  shows "updateZoom s =
           Inr (s, delivered (zoomUpdateHandler s) (\<lambda>h. CallZoom zoomupdate h
             (ZoomEvent ((clientX (cache s ! 0) + clientX (cache s ! 1)) / 2)
                        ((clientY (cache s ! 0) + clientY (cache s ! 1)) / 2)
                        (js_div (distance (cache s ! 0) (cache s ! 1)) (this_delta s))))) \<and>
         stopZoom s =
           Inr (s, delivered (zoomStopHandler s) (\<lambda>h. CallZoom zoomstop h
             (ZoomEvent ((clientX (cache s ! 0) + clientX (cache s ! 1)) / 2)
                        ((clientY (cache s ! 0) + clientY (cache s ! 1)) / 2)
                        (js_div (distance (cache s ! 0) (cache s ! 1)) (this_delta s))))) \<and>
         distance (cache s ! 0) (cache s ! 1) =
           sqrt ((clientX (cache s ! 0) - clientX (cache s ! 1))\<^sup>2 +
                 (clientY (cache s ! 0) - clientY (cache s ! 1))\<^sup>2) \<and>
         (this_delta s \<noteq> 0 \<longrightarrow>
            js_div (distance (cache s ! 0) (cache s ! 1)) (this_delta s) =
              Finite (distance (cache s ! 0) (cache s ! 1) / this_delta s)) \<and>
         (\<exists>s1 out1. startZoom s = Inr (s1, out1) \<and>
            this_delta s1 = distance (cache s ! 0) (cache s ! 1))"
  using assms
  by (simp add: updateZoom_Inr stopZoom_Inr startZoom_Inr mid_x_def mid_y_def js_div_nonzero
        distance_def Let_def power2_eq_square)

theorem zoom_update_stop_payload_witness:
  "2 \<le> length (cache spread) \<and>
   handlePointerMove (touch 2 20 0) spread =
     Inr (spread\<lparr>cache := [touch 1 0 0, touch 2 20 0]\<rparr>,
          [CallZoom zoomupdate 5 (ZoomEvent 10 0 (Finite 2))]) \<and>
   updateZoom (spread\<lparr>cache := [touch 1 0 0, touch 2 20 0]\<rparr>) =
     Inr (spread\<lparr>cache := [touch 1 0 0, touch 2 20 0]\<rparr>,
          [CallZoom zoomupdate 5 (ZoomEvent 10 0 (Finite 2))]) \<and>
   stopZoom spread = Inr (spread, [CallZoom zoomstop 6 (ZoomEvent 5 0 (Finite 1))])"
proof -
  have h: "2 \<le> length (cache spread)"
    by (simp add: spread_def)
  have k: "2 \<le> length (cache (spread\<lparr>cache := [touch 1 0 0, touch 2 20 0]\<rparr>))"
    by simp
  show ?thesis
    using h zoom_update_stop_payload [OF h] zoom_update_stop_payload [OF k]
    by (simp add: spread_def handlePointerMove_Inr distance_same_y mid_x_def mid_y_def js_div_def)
qed

text \<open>
  C8: two contacts that start a zoom at one position give the zoom anchor 0. With the
  anchor 0, update and stop take their usual path: they do not fail, and the scale they
  deliver is not finite: \<open>NaN\<close> when the contacts still coincide, \<open>Infinity\<close> otherwise.
\<close>

theorem degenerate_zoom_anchor:
  assumes "2 \<le> length (cache s)"
  shows "(clientX (cache s ! 0) = clientX (cache s ! 1) \<and>
          clientY (cache s ! 0) = clientY (cache s ! 1) \<longrightarrow>
            startZoom s =
              Inr (s\<lparr>this_delta := 0\<rparr>,
                   delivered (zoomStartHandler s) (\<lambda>h. CallZoom zoomstart h
                     (ZoomEvent (mid_x (cache s ! 0) (cache s ! 1))
                        (mid_y (cache s ! 0) (cache s ! 1)) (Finite 1))))) \<and>
         (this_delta s = 0 \<longrightarrow>
            updateZoom s =
              Inr (s, delivered (zoomUpdateHandler s) (\<lambda>h. CallZoom zoomupdate h
                (ZoomEvent (mid_x (cache s ! 0) (cache s ! 1)) (mid_y (cache s ! 0) (cache s ! 1))
                   (if distance (cache s ! 0) (cache s ! 1) = 0 then NaN else PosInfinity)))) \<and>
            stopZoom s =
              Inr (s, delivered (zoomStopHandler s) (\<lambda>h. CallZoom zoomstop h
                (ZoomEvent (mid_x (cache s ! 0) (cache s ! 1)) (mid_y (cache s ! 0) (cache s ! 1))
                   (if distance (cache s ! 0) (cache s ! 1) = 0 then NaN else PosInfinity)))))"
  using assms
  by (simp add: startZoom_Inr updateZoom_Inr stopZoom_Inr distance_coincident
        js_div_zero [OF distance_nonneg])

theorem degenerate_zoom_anchor_witness:
  "2 \<le> length (cache coincident) \<and>
   startZoom coincident =
     Inr (coincident\<lparr>this_delta := 0\<rparr>, [CallZoom zoomstart 4 (ZoomEvent 5 5 (Finite 1))]) \<and>
   updateZoom (coincident\<lparr>this_delta := 0\<rparr>) =
     Inr (coincident\<lparr>this_delta := 0\<rparr>, [CallZoom zoomupdate 5 (ZoomEvent 5 5 NaN)]) \<and>
   2 \<le> length (cache degenerate) \<and> this_delta degenerate = 0 \<and>
   updateZoom degenerate = Inr (degenerate, [CallZoom zoomupdate 5 (ZoomEvent 5 7 PosInfinity)]) \<and>
   stopZoom degenerate = Inr (degenerate, [CallZoom zoomstop 6 (ZoomEvent 5 7 PosInfinity)])"
proof -
  have h: "2 \<le> length (cache coincident)"
    by (simp add: coincident_def)
  have h0: "2 \<le> length (cache (coincident\<lparr>this_delta := 0\<rparr>))"
    by (simp add: coincident_def)
  have k: "2 \<le> length (cache degenerate)"
    by (simp add: degenerate_def)
  show ?thesis
    using h k degenerate_zoom_anchor [OF h] degenerate_zoom_anchor [OF h0]
      degenerate_zoom_anchor [OF k]
    by (simp add: coincident_def degenerate_def distance_same_x mid_x_def mid_y_def)
qed

lemma updateDrag_frame: "updateDrag s = Inr (s', out) \<Longrightarrow> s' = s"
  by (auto simp add: updateDrag_def split: option.splits sum.splits)

lemma stopDrag_frame: "stopDrag s = Inr (s', out) \<Longrightarrow> s' = s"
  by (auto simp add: stopDrag_def split: option.splits sum.splits)

lemma updateZoom_frame: "updateZoom s = Inr (s', out) \<Longrightarrow> s' = s"
  by (auto simp add: updateZoom_def split: option.splits sum.splits)

lemma stopZoom_frame: "stopZoom s = Inr (s', out) \<Longrightarrow> s' = s"
  by (auto simp add: stopZoom_def split: option.splits sum.splits)

lemma startDrag_frame:
  "startDrag s = Inr (s', out) \<Longrightarrow> s' = s\<lparr>this_x := this_x s', this_y := this_y s'\<rparr>"
  by (auto simp add: startDrag_def Let_def split: option.splits sum.splits)

lemma startZoom_frame:
  "startZoom s = Inr (s', out) \<Longrightarrow> s' = s\<lparr>this_delta := this_delta s'\<rparr>"
  by (auto simp add: startZoom_def Let_def split: option.splits sum.splits prod.splits)

text \<open>
  C10: the update and stop operations of both gestures leave the whole decoder state
  (cache, both anchors, handlers) as it was; \<open>startDrag\<close> changes the drag anchor only and
  \<open>startZoom\<close> the zoom anchor only.
\<close>

theorem gesture_frame:
  "(\<forall>s' out. updateDrag s = Inr (s', out) \<longrightarrow> s' = s) \<and>
   (\<forall>s' out. stopDrag s = Inr (s', out) \<longrightarrow> s' = s) \<and>
   (\<forall>s' out. updateZoom s = Inr (s', out) \<longrightarrow> s' = s) \<and>
   (\<forall>s' out. stopZoom s = Inr (s', out) \<longrightarrow> s' = s) \<and>
   (\<forall>s' out. startDrag s = Inr (s', out) \<longrightarrow> s' = s\<lparr>this_x := this_x s', this_y := this_y s'\<rparr>) \<and>
   (\<forall>s' out. startZoom s = Inr (s', out) \<longrightarrow> s' = s\<lparr>this_delta := this_delta s'\<rparr>)"
  using updateDrag_frame [of s] stopDrag_frame [of s] updateZoom_frame [of s] stopZoom_frame [of s]
    startDrag_frame [of s] startZoom_frame [of s]
  by blast

theorem gesture_frame_witness:
  "updateDrag pinch = Inr (pinch, [CallDrag dragupdate 2 (DragEvent 6 0)]) \<and>
   stopDrag pinch = Inr (pinch, [CallDrag dragstop 3 (DragEvent 6 0)]) \<and>
   updateZoom pinch = Inr (pinch, [CallZoom zoomupdate 5 (ZoomEvent 6 4 (Finite 1))]) \<and>
   stopZoom pinch = Inr (pinch, [CallZoom zoomstop 6 (ZoomEvent 6 4 (Finite 1))]) \<and>
   startDrag pinch = Inr (pinch\<lparr>this_x := 6, this_y := 0\<rparr>, [CallDrag dragstart 1 (DragEvent 0 0)]) \<and>
   startZoom (pinch\<lparr>this_delta := 2\<rparr>) =
     Inr (pinch, [CallZoom zoomstart 4 (ZoomEvent 6 4 (Finite 1))])"
  using gesture_frame [of pinch] gesture_frame [of "pinch\<lparr>this_delta := 2\<rparr>"]
  by (simp add: pinch_def updateDrag_Inr stopDrag_Inr updateZoom_Inr stopZoom_Inr startDrag_Inr
        startZoom_Inr distance_same_x mid_x_def mid_y_def js_div_def)

end
